theory Spec2Isabelle
  imports
    Complex_Main
    "HOL-Library.Char_ord"
    "HOL-Library.List_Lexorder"
    "HOL-Library.Product_Lexorder"
    "HOL-Library.Sublist"
    "HOL-Library.Multiset"
begin

section \<open>Python values used by the dashboard\<close>

text \<open>
  The dashboard script \<^verbatim>\<open>sale.py\<close> loads a table of vendor routes, normalises three
  derived columns, filters the table through four cascading multiselect widgets and shows
  aggregated views. This theory embeds its data logic.

  A Python \<^verbatim>\<open>str\<close> is modelled as a \<^typ>\<open>string\<close> whose characters are the code points
  below 256; the character classes below are those of Python 3 for these code points
  (\<^verbatim>\<open>str.isspace\<close>, which \<^verbatim>\<open>str.strip\<close>, \<^verbatim>\<open>str.split\<close> and the pattern \<^verbatim>\<open>\s\<close> share, the
  pattern \<^verbatim>\<open>\w\<close>, and \<^verbatim>\<open>str.lower\<close>). The order on strings is the lexicographic order on
  code points, as Python compares strings. A cell that pandas reads as missing (NaN) is
  \<^term>\<open>None\<close>. Rates are rational numbers: the rounding of binary floating point is not
  part of the model.
\<close>

datatype py_error = IndexError | TypeError | StreamlitAPIException

type_synonym cell = "string option"

definition isna :: "cell \<Rightarrow> bool" where
  "isna v = (v = None)"

definition py_str :: "cell \<Rightarrow> string" where
  "py_str v = (case v of None \<Rightarrow> ''nan'' | Some s \<Rightarrow> s)"

definition is_space :: "char \<Rightarrow> bool" where
  "is_space c = (let n = (of_char c :: nat) in
     (9 \<le> n \<and> n \<le> 13) \<or> (28 \<le> n \<and> n \<le> 32) \<or> n = 133 \<or> n = 160)"

definition is_word :: "char \<Rightarrow> bool" where
  "is_word c = (let n = (of_char c :: nat) in
     (48 \<le> n \<and> n \<le> 57) \<or> (65 \<le> n \<and> n \<le> 90) \<or> n = 95 \<or> (97 \<le> n \<and> n \<le> 122) \<or>
     n = 170 \<or> n = 178 \<or> n = 179 \<or> n = 181 \<or> n = 185 \<or> n = 186 \<or>
     (188 \<le> n \<and> n \<le> 190) \<or> (192 \<le> n \<and> n \<le> 214) \<or> (216 \<le> n \<and> n \<le> 246) \<or>
     248 \<le> n)"

definition lower_char :: "char \<Rightarrow> char" where
  "lower_char c = (let n = (of_char c :: nat) in
     if (65 \<le> n \<and> n \<le> 90) \<or> (192 \<le> n \<and> n \<le> 214) \<or> (216 \<le> n \<and> n \<le> 222)
     then char_of (n + 32) else c)"

definition lower :: "string \<Rightarrow> string" where
  "lower s = map lower_char s"

text \<open>\<^verbatim>\<open>s.strip()\<close>: leading and trailing whitespace removed.\<close>

definition strip :: "string \<Rightarrow> string" where
  "strip s = rev (dropWhile is_space (rev (dropWhile is_space s)))"

text \<open>
  \<^verbatim>\<open>s.replace(old, new)\<close>: the occurrences of \<open>old\<close> are found from the left and do not
  overlap; an empty \<open>old\<close> matches before every character and at the end.
\<close>

fun replace :: "string \<Rightarrow> string \<Rightarrow> string \<Rightarrow> string" where
  "replace [] new s = new @ concat (map (\<lambda>c. c # new) s)"
| "replace (a # old) new [] = []"
| "replace (a # old) new (c # cs) =
     (if prefix (a # old) (c # cs)
      then new @ replace (a # old) new (drop (length (a # old)) (c # cs))
      else c # replace (a # old) new cs)"

text \<open>\<^verbatim>\<open>old in s\<close> for strings.\<close>

fun contains :: "string \<Rightarrow> string \<Rightarrow> bool" where
  "contains old [] = (old = [])"
| "contains old (c # cs) = (prefix old (c # cs) \<or> contains old cs)"

text \<open>\<^verbatim>\<open>re.sub(r'[^\w\s]', '', s)\<close>: every character that is neither a word character nor
  whitespace is deleted.\<close>

definition sub_nonword :: "string \<Rightarrow> string" where
  "sub_nonword s = filter (\<lambda>c. is_word c \<or> is_space c) s"

text \<open>\<^verbatim>\<open>re.sub(r'\s+', ' ', s)\<close>: every maximal run of whitespace becomes one space.\<close>

function sub_spaces :: "string \<Rightarrow> string" where
  "sub_spaces [] = []"
| "sub_spaces (c # cs) =
     (if is_space c then CHR '' '' # sub_spaces (dropWhile is_space cs)
      else c # sub_spaces cs)"
  by pat_completeness auto
termination
  by (relation "measure length") (simp_all add: le_imp_less_Suc length_dropWhile_le)

text \<open>\<^verbatim>\<open>s.split()\<close>: the maximal runs of characters that are not whitespace.\<close>

function split :: "string \<Rightarrow> string list" where
  "split s = (let s' = dropWhile is_space s in
     if s' = [] then []
     else takeWhile (\<lambda>c. \<not> is_space c) s' # split (dropWhile (\<lambda>c. \<not> is_space c) s'))"
  by pat_completeness auto
termination
proof (relation "measure length")
  fix s s' :: string
  assume a: "s' = dropWhile is_space s" "s' \<noteq> []"
  from a(2) obtain c cs where c: "s' = c # cs" by (cases s') auto
  have "dropWhile is_space s = c # cs" using a(1) c by simp
  then have "\<not> is_space c" by (simp add: dropWhile_eq_Cons_conv)
  then have "dropWhile (\<lambda>c. \<not> is_space c) s' = dropWhile (\<lambda>c. \<not> is_space c) cs"
    using c by simp
  moreover have "length (dropWhile (\<lambda>c. \<not> is_space c) cs) \<le> length cs"
    by (rule length_dropWhile_le)
  moreover have "length s' \<le> length s" using a(1) by (simp add: length_dropWhile_le)
  ultimately show "(dropWhile (\<lambda>c. \<not> is_space c) s', s) \<in> measure length"
    using c by simp
qed simp

declare split.simps [simp del]

text \<open>\<^verbatim>\<open>xs[i]\<close> on a list: a negative index counts from the end, an index out of range
  raises.\<close>

definition getitem :: "'a list \<Rightarrow> int \<Rightarrow> py_error + 'a" where
  "getitem xs i =
     (if 0 \<le> i \<and> i < int (length xs) then Inr (xs ! nat i)
      else if i < 0 \<and> - int (length xs) \<le> i then Inr (xs ! nat (int (length xs) + i))
      else Inl IndexError)"

section \<open>The record normaliser\<close>

text \<open>
  One row of the spreadsheet after the column \<^verbatim>\<open>Customer\<close> has been renamed to
  \<^verbatim>\<open>Supplier\<close>. The cells of \<^verbatim>\<open>Name\<close> and \<^verbatim>\<open>Supplier\<close> may be missing; the trunk and the
  three numeric columns are present.
\<close>

record vendor_record =
  Name :: cell
  Supplier :: cell
  Trunk :: string
  Rate_inter :: rat
  Min_Dur :: int
  Inc_Dur :: int

record normalized_record = vendor_record +
  Destination :: string
  Supplier_Normalized :: string
  Country :: string

type_synonym table = "normalized_record list"

definition replacements :: "(string \<times> string) list" where
  "replacements =
     [(''communications'', ''comm''),
      (''telecom'', ''tel''),
      (''limited'', ''ltd''),
      (''incorporated'', ''inc''),
      (''corporation'', ''corp''),
      (''&'', ''and'')]"

definition normalize_supplier_name :: "cell \<Rightarrow> string" where
  "normalize_supplier_name name =
     (let name1 = strip (lower (py_str name));
          name2 = foldl (\<lambda>n (old, new). replace old new n) name1 replacements;
          name3 = sub_nonword name2;
          name4 = strip (sub_spaces name3)
      in name4)"

definition normalize_destination :: "cell \<Rightarrow> string" where
  "normalize_destination name =
     (if isna name then ''Unknown''
      else let name1 = strip (py_str name);
               name2 = sub_spaces name1
           in name2)"

definition extract_country :: "cell \<Rightarrow> py_error + string" where
  "extract_country dest =
     (if isna dest then Inr ''Unknown''
      else let parts = split (replace ''-'' '' '' (py_str dest))
           in if parts \<noteq> [] then getitem parts 0 else Inr ''Unknown'')"

text \<open>The three derived columns of one row, as \<^verbatim>\<open>load_and_process_data\<close> computes them.\<close>

definition normalize_record :: "vendor_record \<Rightarrow> py_error + normalized_record" where
  "normalize_record r =
     (let destination = normalize_destination (Name r);
          supplier_normalized = normalize_supplier_name (Supplier r)
      in case extract_country (Some destination) of
           Inl e \<Rightarrow> Inl e
         | Inr country \<Rightarrow>
             Inr (vendor_record.extend r
                    (normalized_record.fields destination supplier_normalized country)))"

fun normalize_rows :: "vendor_record list \<Rightarrow> py_error + table" where
  "normalize_rows [] = Inr []"
| "normalize_rows (r # rs) =
     (case normalize_record r of
        Inl e \<Rightarrow> Inl e
      | Inr n \<Rightarrow> (case normalize_rows rs of Inl e \<Rightarrow> Inl e | Inr ns \<Rightarrow> Inr (n # ns)))"

text \<open>\<^verbatim>\<open>load_and_process_data\<close> on the rows read from the spreadsheet: an exception is caught
  and the function returns \<^verbatim>\<open>None\<close>.\<close>

definition load_and_process_data :: "vendor_record list \<Rightarrow> table option" where
  "load_and_process_data rows =
     (case normalize_rows rows of Inl e \<Rightarrow> None | Inr df \<Rightarrow> Some df)"

section \<open>The filter engine\<close>

text \<open>\<^verbatim>\<open>Series.unique()\<close>: the distinct values in the order of their first appearance; a
  missing value is kept as one value.\<close>

definition unique :: "'a list \<Rightarrow> 'a list" where
  "unique xs = rev (remdups (rev xs))"

text \<open>
  \<^verbatim>\<open>filter_dataframe\<close>: a list is true in Python when it is not empty, and
  \<^verbatim>\<open>df[df[col].isin(values)]\<close> keeps the rows whose cell is one of the values, in their
  order.
\<close>

definition filter_dataframe ::
  "table \<Rightarrow> string list \<Rightarrow> string list \<Rightarrow> cell list \<Rightarrow> string list \<Rightarrow> table" where
  "filter_dataframe df_input countries destinations suppliers trunks =
     (let filtered = df_input;
          filtered = (if countries \<noteq> []
                      then filter (\<lambda>r. Country r \<in> set countries) filtered else filtered);
          filtered = (if destinations \<noteq> []
                      then filter (\<lambda>r. Destination r \<in> set destinations) filtered else filtered);
          filtered = (if suppliers \<noteq> []
                      then filter (\<lambda>r. Supplier r \<in> set suppliers) filtered else filtered);
          filtered = (if trunks \<noteq> []
                      then filter (\<lambda>r. Trunk r \<in> set trunks) filtered else filtered)
      in filtered)"

text \<open>The candidate values of the four widgets (lines 291 to 348 of the script).\<close>

definition available_countries :: "table \<Rightarrow> string list" where
  "available_countries df = unique (map Country df)"

definition available_destinations :: "table \<Rightarrow> string list \<Rightarrow> string list" where
  "available_destinations df selected_countries =
     (if selected_countries = [] then unique (map Destination df)
      else unique (map Destination (filter (\<lambda>r. Country r \<in> set selected_countries) df)))"

definition temp_df_suppliers :: "table \<Rightarrow> string list \<Rightarrow> string list \<Rightarrow> table" where
  "temp_df_suppliers df selected_countries selected_destinations =
     (let temp_df = df;
          temp_df = (if selected_countries \<noteq> []
                     then filter (\<lambda>r. Country r \<in> set selected_countries) temp_df else temp_df);
          temp_df = (if selected_destinations \<noteq> []
                     then filter (\<lambda>r. Destination r \<in> set selected_destinations) temp_df
                     else temp_df)
      in temp_df)"

definition available_suppliers :: "table \<Rightarrow> string list \<Rightarrow> string list \<Rightarrow> cell list" where
  "available_suppliers df selected_countries selected_destinations =
     unique (map Supplier (temp_df_suppliers df selected_countries selected_destinations))"

definition temp_df_trunks ::
  "table \<Rightarrow> string list \<Rightarrow> string list \<Rightarrow> cell list \<Rightarrow> table" where
  "temp_df_trunks df selected_countries selected_destinations selected_suppliers =
     (let temp_df = temp_df_suppliers df selected_countries selected_destinations
      in if selected_suppliers \<noteq> []
         then filter (\<lambda>r. Supplier r \<in> set selected_suppliers) temp_df else temp_df)"

definition available_trunks ::
  "table \<Rightarrow> string list \<Rightarrow> string list \<Rightarrow> cell list \<Rightarrow> string list" where
  "available_trunks df selected_countries selected_destinations selected_suppliers =
     unique (map Trunk
       (temp_df_trunks df selected_countries selected_destinations selected_suppliers))"

record selection =
  selected_countries :: "string list"
  selected_destinations :: "string list"
  selected_suppliers :: "cell list"
  selected_trunks :: "string list"

record candidate_sets =
  cand_countries :: "string list"
  cand_destinations :: "string list"
  cand_suppliers :: "cell list"
  cand_trunks :: "string list"

definition compute_candidates :: "table \<Rightarrow> selection \<Rightarrow> candidate_sets" where
  "compute_candidates df sel =
     \<lparr>cand_countries = available_countries df,
      cand_destinations = available_destinations df (selected_countries sel),
      cand_suppliers =
        available_suppliers df (selected_countries sel) (selected_destinations sel),
      cand_trunks =
        available_trunks df (selected_countries sel) (selected_destinations sel)
          (selected_suppliers sel)\<rparr>"

text \<open>The condition under which a record passes one dimension of a selection.\<close>

definition passes :: "'a list \<Rightarrow> 'a \<Rightarrow> bool" where
  "passes chosen v = (chosen = [] \<or> v \<in> set chosen)"

subsection \<open>The widgets and the session state\<close>

text \<open>
  \<^verbatim>\<open>sorted(values)\<close> on the values of a column: strings are ordered; a missing value is a
  float, and comparing it with a string raises \<^verbatim>\<open>TypeError\<close>.
\<close>

definition sorted_cells :: "cell list \<Rightarrow> py_error + cell list" where
  "sorted_cells xs =
     (if None \<notin> set xs then Inr (map Some (sort (map the xs)))
      else if list_all (\<lambda>x. x = None) xs then Inr xs
      else Inl TypeError)"

text \<open>\<^verbatim>\<open>x in array\<close> on a numpy array compares with \<^verbatim>\<open>==\<close>, and NaN is not equal to
  itself.\<close>

definition in_array :: "cell \<Rightarrow> cell list \<Rightarrow> bool" where
  "in_array x arr = (x \<noteq> None \<and> x \<in> set arr)"

text \<open>
  \<^verbatim>\<open>st.multiselect(label, options, default=...)\<close> is a function of Streamlit, outside the
  script; the model takes its documented behaviour. It raises when a default value is not
  one of the options. Its value is a list of options: the default when the user has not
  touched the widget in this run (\<open>pick = None\<close>), and otherwise the options the user has
  picked.
\<close>

definition multiselect :: "'a list \<Rightarrow> 'a list \<Rightarrow> 'a list option \<Rightarrow> py_error + 'a list" where
  "multiselect options dflt pick =
     (if \<not> set dflt \<subseteq> set options then Inl StreamlitAPIException
      else Inr (case pick of
                  None \<Rightarrow> dflt
                | Some xs \<Rightarrow> filter (\<lambda>x. x \<in> set options) xs))"

record session_state =
  filter_countries :: "string list"
  filter_destinations :: "string list"
  filter_suppliers :: "cell list"
  filter_trunks :: "string list"

definition init_session_state :: session_state where
  "init_session_state =
     \<lparr>filter_countries = [], filter_destinations = [], filter_suppliers = [],
      filter_trunks = []\<rparr>"

record interaction =
  pick_countries :: "string list option"
  pick_destinations :: "string list option"
  pick_suppliers :: "cell list option"
  pick_trunks :: "string list option"

text \<open>
  One run of the four filter columns. Each widget's value is stored in the session state
  as soon as the widget returns, so a run that raises leaves the values stored so far.
\<close>

definition filter_widgets ::
  "table \<Rightarrow> session_state \<Rightarrow> interaction \<Rightarrow> session_state \<times> (py_error + selection)" where
  "filter_widgets df st ui =
     (case multiselect (sort (available_countries df)) (filter_countries st)
             (pick_countries ui) of
        Inl e \<Rightarrow> (st, Inl e)
      | Inr countries \<Rightarrow>
     let st1 = st\<lparr>filter_countries := countries\<rparr>;
         avail_d = available_destinations df countries
     in case multiselect (sort avail_d)
               (filter (\<lambda>d. d \<in> set avail_d) (filter_destinations st1))
               (pick_destinations ui) of
        Inl e \<Rightarrow> (st1, Inl e)
      | Inr destinations \<Rightarrow>
     let st2 = st1\<lparr>filter_destinations := destinations\<rparr>;
         avail_s = available_suppliers df countries destinations
     in case sorted_cells avail_s of
        Inl e \<Rightarrow> (st2, Inl e)
      | Inr options_s \<Rightarrow>
     (case multiselect options_s
               (filter (\<lambda>s. in_array s avail_s) (filter_suppliers st2))
               (pick_suppliers ui) of
        Inl e \<Rightarrow> (st2, Inl e)
      | Inr suppliers \<Rightarrow>
     let st3 = st2\<lparr>filter_suppliers := suppliers\<rparr>;
         avail_t = available_trunks df countries destinations suppliers
     in case multiselect (sort avail_t)
               (filter (\<lambda>t. t \<in> set avail_t) (filter_trunks st3))
               (pick_trunks ui) of
        Inl e \<Rightarrow> (st3, Inl e)
      | Inr trunks \<Rightarrow>
          (st3\<lparr>filter_trunks := trunks\<rparr>,
           Inr \<lparr>selected_countries = countries, selected_destinations = destinations,
                selected_suppliers = suppliers, selected_trunks = trunks\<rparr>)))"

text \<open>
  The session states a session over the table \<open>df\<close> can be in: the initial one, the one
  the reset button leaves, and the one a run of the widgets leaves.
\<close>

inductive reachable :: "table \<Rightarrow> session_state \<Rightarrow> bool" for df :: table where
  initial: "reachable df init_session_state"
| reset: "reachable df st \<Longrightarrow> reachable df init_session_state"
| run: "reachable df st \<Longrightarrow> reachable df (fst (filter_widgets df st ui))"

section \<open>The aggregation views\<close>

text \<open>
  \<^verbatim>\<open>df.groupby(keys)\<close>: one group for each distinct key, in ascending order of the keys;
  the rows of a group are the rows with that key, and a row with a missing key cell (key
  \<^term>\<open>None\<close>) belongs to no group.
\<close>

definition groupby :: "('r \<Rightarrow> 'k::linorder option) \<Rightarrow> 'r list \<Rightarrow> ('k \<times> 'r list) list" where
  "groupby key df =
     map (\<lambda>k. (k, filter (\<lambda>r. key r = Some k) df)) (sort (unique (List.map_filter key df)))"

definition mean :: "rat list \<Rightarrow> rat" where
  "mean xs = sum_list xs / of_nat (length xs)"

text \<open>
  The format \<^verbatim>\<open>f"${x:.4f}"\<close>: the value rounded to four decimals, a tie going to the even
  digit, behind a dollar sign.
\<close>

definition round_half_even :: "rat \<Rightarrow> int" where
  "round_half_even q =
     (let f = \<lfloor>q\<rfloor>; d = q - of_int f
      in if d < 1 / 2 then f else if 1 / 2 < d then f + 1 else if even f then f else f + 1)"

definition digit :: "nat \<Rightarrow> char" where
  "digit d = char_of (48 + d)"

function str_nat :: "nat \<Rightarrow> string" where
  "str_nat n = (if n < 10 then [digit n] else str_nat (n div 10) @ [digit (n mod 10)])"
  by pat_completeness auto
termination
  by (relation "measure id") auto

declare str_nat.simps [simp del]

definition format_4f :: "rat \<Rightarrow> string" where
  "format_4f x =
     (let n = nat (round_half_even (\<bar>x\<bar> * 10000))
      in (if x < 0 then ''-'' else []) @ str_nat (n div 10000) @ ''.'' @
         [digit (n div 1000 mod 10), digit (n div 100 mod 10), digit (n div 10 mod 10),
          digit (n mod 10)])"

definition format_rate :: "rat \<Rightarrow> string" where
  "format_rate x = ''$'' @ format_4f x"

subsection \<open>Overview\<close>

record 'r main_row =
  mt_Country :: string
  mt_Destination :: string
  mt_Supplier :: string
  mt_Trunk :: string
  mt_Rate :: 'r
  mt_Min_Dur :: int
  mt_Inc_Dur :: int

definition main_key :: "normalized_record \<Rightarrow> (string \<times> string \<times> string \<times> string) option" where
  "main_key r =
     (case Supplier r of
        None \<Rightarrow> None
      | Some s \<Rightarrow> Some (Country r, Destination r, s, Trunk r))"

definition main_agg :: "(string \<times> string \<times> string \<times> string) \<times> table \<Rightarrow> rat main_row" where
  "main_agg kg =
     (case kg of ((c, d, s, t), g) \<Rightarrow>
        \<lparr>mt_Country = c, mt_Destination = d, mt_Supplier = s, mt_Trunk = t,
         mt_Rate = mean (map Rate_inter g),
         mt_Min_Dur = Min (set (map Min_Dur g)),
         mt_Inc_Dur = Min (set (map Inc_Dur g))\<rparr>)"

text \<open>The table of \<^verbatim>\<open>generate_main_table\<close> before its rate column is formatted.\<close>

definition main_table_raw :: "table \<Rightarrow> rat main_row list" where
  "main_table_raw filtered_df_input =
     sort_key (\<lambda>m. (mt_Country m, mt_Destination m, mt_Rate m))
       (map main_agg (groupby main_key filtered_df_input))"

definition mt_format :: "rat main_row \<Rightarrow> string main_row" where
  "mt_format m =
     \<lparr>mt_Country = mt_Country m, mt_Destination = mt_Destination m,
      mt_Supplier = mt_Supplier m, mt_Trunk = mt_Trunk m,
      mt_Rate = format_rate (mt_Rate m),
      mt_Min_Dur = mt_Min_Dur m, mt_Inc_Dur = mt_Inc_Dur m\<rparr>"

definition generate_main_table :: "table \<Rightarrow> string main_row list" where
  "generate_main_table filtered_df_input = map mt_format (main_table_raw filtered_df_input)"

subsection \<open>Billing increments\<close>

record billing_row =
  bt_Supplier :: string
  bt_Trunk :: string
  bt_Min_Duration :: int
  bt_Increment_Duration :: int
  bt_Avg_Rate :: string

definition billing_key :: "normalized_record \<Rightarrow> (string \<times> string) option" where
  "billing_key r = (case Supplier r of None \<Rightarrow> None | Some s \<Rightarrow> Some (s, Trunk r))"

definition generate_billing_table :: "table \<Rightarrow> billing_row list" where
  "generate_billing_table filtered_df_input =
     map (\<lambda>kg. case kg of ((s, t), g) \<Rightarrow>
            \<lparr>bt_Supplier = s, bt_Trunk = t,
             bt_Min_Duration = Min (set (map Min_Dur g)),
             bt_Increment_Duration = Min (set (map Inc_Dur g)),
             bt_Avg_Rate = format_rate (mean (map Rate_inter g))\<rparr>)
       (groupby billing_key filtered_df_input)"

subsection \<open>Full rate listing\<close>

record 'r rate_row =
  ar_Country :: string
  ar_Destination :: string
  ar_Supplier :: cell
  ar_Trunk :: string
  ar_Rate_inter :: 'r
  ar_Min_Dur :: int
  ar_Inc_Dur :: int

record listed_row = "rat rate_row" +
  ar_Rate_Display :: string

text \<open>The seven columns both modes of the listing select.\<close>

definition rate_columns :: "normalized_record \<Rightarrow> rat rate_row" where
  "rate_columns r =
     \<lparr>ar_Country = Country r, ar_Destination = Destination r, ar_Supplier = Supplier r,
      ar_Trunk = Trunk r, ar_Rate_inter = Rate_inter r, ar_Min_Dur = Min_Dur r,
      ar_Inc_Dur = Inc_Dur r\<rparr>"

text \<open>
  The sort keys of \<^verbatim>\<open>sort_values\<close>: a missing value comes last in its column, and a
  descending column is ordered by the reverse of its values. The sort on several columns
  is stable.
\<close>

definition na_last :: "cell \<Rightarrow> bool \<times> string" where
  "na_last v = (case v of None \<Rightarrow> (True, []) | Some s \<Rightarrow> (False, s))"

definition directed :: "bool \<Rightarrow> rat \<Rightarrow> rat" where
  "directed ascending x = (if ascending then x else - x)"

definition supplier_sort_key :: "bool \<Rightarrow> rat rate_row \<Rightarrow> string \<times> (bool \<times> string) \<times> rat" where
  "supplier_sort_key sort_ascending r =
     (ar_Destination r, na_last (ar_Supplier r), directed sort_ascending (ar_Rate_inter r))"

definition generate_all_rates_by_destination :: "table \<Rightarrow> bool \<Rightarrow> listed_row list" where
  "generate_all_rates_by_destination filtered_df_input sort_ascending =
     (let all_rates = map rate_columns filtered_df_input;
          all_rates = sort_key (supplier_sort_key sort_ascending) all_rates
      in map (\<lambda>r. rate_row.extend r
                (listed_row.fields (format_rate (ar_Rate_inter r)))) all_rates)"

definition destination_sort_key :: "bool \<Rightarrow> rat rate_row \<Rightarrow> string \<times> rat" where
  "destination_sort_key sort_ascending r =
     (ar_Destination r, directed sort_ascending (ar_Rate_inter r))"

definition ar_format :: "rat rate_row \<Rightarrow> string rate_row" where
  "ar_format r =
     \<lparr>ar_Country = ar_Country r, ar_Destination = ar_Destination r,
      ar_Supplier = ar_Supplier r, ar_Trunk = ar_Trunk r,
      ar_Rate_inter = format_rate (ar_Rate_inter r),
      ar_Min_Dur = ar_Min_Dur r, ar_Inc_Dur = ar_Inc_Dur r\<rparr>"

text \<open>The listing of the other branch (lines 580 to 582), before and after the rate column
  is formatted.\<close>

definition all_rates_sorted :: "table \<Rightarrow> bool \<Rightarrow> rat rate_row list" where
  "all_rates_sorted filtered_df sort_ascending =
     sort_key (destination_sort_key sort_ascending) (map rate_columns filtered_df)"

definition all_rates_destination_only :: "table \<Rightarrow> bool \<Rightarrow> string rate_row list" where
  "all_rates_destination_only filtered_df sort_ascending =
     map ar_format (all_rates_sorted filtered_df sort_ascending)"

subsection \<open>Supplier summary\<close>

record 'r summary_row =
  ss_Supplier :: string
  ss_Routes :: nat
  ss_Avg_Rate :: 'r
  ss_Min_Rate :: 'r
  ss_Max_Rate :: 'r

definition summary_agg :: "string \<times> table \<Rightarrow> rat summary_row" where
  "summary_agg kg =
     (case kg of (s, g) \<Rightarrow>
        \<lparr>ss_Supplier = s,
         ss_Routes = length (map Destination g),
         ss_Avg_Rate = mean (map Rate_inter g),
         ss_Min_Rate = Min (set (map Rate_inter g)),
         ss_Max_Rate = Max (set (map Rate_inter g))\<rparr>)"

text \<open>The summary before its three rate columns are formatted. \<^verbatim>\<open>sort_values\<close> on one
  column does not promise the order of rows with equal keys; the model keeps them in the
  order of the groups.\<close>

definition supplier_summary_raw :: "table \<Rightarrow> rat summary_row list" where
  "supplier_summary_raw filtered_df =
     sort_key ss_Avg_Rate (map summary_agg (groupby Supplier filtered_df))"

definition ss_format :: "rat summary_row \<Rightarrow> string summary_row" where
  "ss_format r =
     \<lparr>ss_Supplier = ss_Supplier r, ss_Routes = ss_Routes r,
      ss_Avg_Rate = format_rate (ss_Avg_Rate r),
      ss_Min_Rate = format_rate (ss_Min_Rate r),
      ss_Max_Rate = format_rate (ss_Max_Rate r)\<rparr>"

definition supplier_summary :: "table \<Rightarrow> string summary_row list" where
  "supplier_summary filtered_df = map ss_format (supplier_summary_raw filtered_df)"

subsection \<open>The page below the filters\<close>

datatype group_view = By_Supplier | Destination_Only

datatype listing =
  Grouped "listed_row list" "string summary_row list"
| Ungrouped "string rate_row list"

record views =
  lowest_rate :: string
  highest_rate :: string
  average_rate :: string
  total_routes :: nat
  overview :: "string main_row list"
  billing :: "billing_row list"
  rates :: listing

text \<open>
  What a run shows for a filtered table: for an empty one the warning of line 379, after
  which \<^verbatim>\<open>st.stop()\<close> ends the run; otherwise the key figures and the views.
\<close>

datatype page = No_Data_Warning | Shown views

definition render :: "table \<Rightarrow> bool \<Rightarrow> group_view \<Rightarrow> page" where
  "render filtered_df sort_ascending view =
     (if filtered_df = [] then No_Data_Warning
      else Shown
        \<lparr>lowest_rate = format_rate (Min (set (map Rate_inter filtered_df))),
         highest_rate = format_rate (Max (set (map Rate_inter filtered_df))),
         average_rate = format_rate (mean (map Rate_inter filtered_df)),
         total_routes = length filtered_df,
         overview = generate_main_table filtered_df,
         billing = generate_billing_table filtered_df,
         rates =
           (case view of
              By_Supplier \<Rightarrow>
                Grouped (generate_all_rates_by_destination filtered_df sort_ascending)
                  (supplier_summary filtered_df)
            | Destination_Only \<Rightarrow>
                Ungrouped (all_rates_destination_only filtered_df sort_ascending))\<rparr>)"

definition dashboard :: "table \<Rightarrow> selection \<Rightarrow> bool \<Rightarrow> group_view \<Rightarrow> page" where
  "dashboard df sel sort_ascending view =
     render
       (filter_dataframe df (selected_countries sel) (selected_destinations sel)
          (selected_suppliers sel) (selected_trunks sel))
       sort_ascending view"

section \<open>Notions used in the statements\<close>

text \<open>The characters that end the first token of a destination.\<close>

definition is_separator :: "char \<Rightarrow> bool" where
  "is_separator c = (is_space c \<or> c = CHR ''-'')"

text \<open>A string in which every whitespace character is a single space between two other
  characters or at an end.\<close>

primrec single_spaced :: "string \<Rightarrow> bool" where
  "single_spaced [] = True"
| "single_spaced (c # cs) =
     ((if is_space c then c = CHR '' '' \<and> (cs = [] \<or> \<not> is_space (hd cs)) else True) \<and> single_spaced cs)"

text \<open>The shape of a normalised supplier name: lower case, word characters and single
  spaces only, no space at either end.\<close>

definition normal_form :: "string \<Rightarrow> bool" where
  "normal_form y = ((\<forall>c\<in>set y. lower_char c = c \<and> (is_word c \<or> is_space c)) \<and>
     single_spaced y \<and> strip y = y)"

text \<open>None of the substrings that \<^verbatim>\<open>normalize_supplier_name\<close> replaces occurs in the
  string.\<close>

definition free_of_patterns :: "string \<Rightarrow> bool" where
  "free_of_patterns y = list_all (\<lambda>(old, new). \<not> contains old y) replacements"





definition supplier_group :: "table \<Rightarrow> string \<Rightarrow> table" where
  "supplier_group df s = filter (\<lambda>r. Supplier r = Some s) df"


text \<open>A selection whose values are all candidates, and the selection a session state
  stores.\<close>

definition within_candidates :: "table \<Rightarrow> selection \<Rightarrow> bool" where
  "within_candidates df sel =
     (set (selected_countries sel) \<subseteq> set (cand_countries (compute_candidates df sel)) \<and>
      set (selected_destinations sel) \<subseteq> set (cand_destinations (compute_candidates df sel)) \<and>
      set (selected_suppliers sel) \<subseteq> set (cand_suppliers (compute_candidates df sel)) \<and>
      set (selected_trunks sel) \<subseteq> set (cand_trunks (compute_candidates df sel)))"

definition stored_selection :: "session_state \<Rightarrow> selection" where
  "stored_selection st =
     \<lparr>selected_countries = filter_countries st,
      selected_destinations = filter_destinations st,
      selected_suppliers = filter_suppliers st,
      selected_trunks = filter_trunks st\<rparr>"



section \<open>The normaliser: proofs\<close>

subsection \<open>The country of a destination\<close>

lemma replace_single: "replace [a] [b] s = map (\<lambda>c. if c = a then b else c) s"
  by (induction s) auto

lemma getitem_0: "parts \<noteq> [] \<Longrightarrow> getitem parts 0 = Inr (hd parts)"
  by (cases parts) (auto simp: getitem_def)

lemma split_first:
  "(case split s of [] \<Rightarrow> u | t # ts \<Rightarrow> t) =
     (if dropWhile is_space s = [] then u else takeWhile (\<lambda>c. \<not> is_space c) (dropWhile is_space s))"
  by (subst split.simps) (simp add: Let_def)



lemma is_space_hyphen: "\<not> is_space CHR ''-''" by (simp add: is_space_def)
lemma is_space_blank: "is_space CHR '' ''" by (simp add: is_space_def)

lemma extract_country_Some:
  "extract_country (Some d) =
     Inr (case split (map (\<lambda>c. if c = CHR ''-'' then CHR '' '' else c) d) of
            [] \<Rightarrow> ''Unknown'' | t # ts \<Rightarrow> t)"
  by (cases "split (map (\<lambda>c. if c = CHR ''-'' then CHR '' '' else c) d)")
     (simp_all add: extract_country_def isna_def py_str_def replace_single getitem_def Let_def)

lemma first_token:
  fixes d :: string
  defines "f \<equiv> (\<lambda>c. if c = CHR ''-'' then CHR '' '' else c)"
  shows "(case split (map f d) of [] \<Rightarrow> u | t # ts \<Rightarrow> t) =
     (let t = takeWhile (\<lambda>c. \<not> is_separator c) (dropWhile is_separator d)
      in if t = [] then u else t)"
proof -
  have sp: "is_space (f c) = is_separator c" for c
    by (simp add: f_def is_separator_def is_space_blank is_space_hyphen)
  have dw: "dropWhile is_space (map f d) = map f (dropWhile is_separator d)"
    by (simp add: dropWhile_map comp_def sp)
  have tw: "takeWhile (\<lambda>c. \<not> is_space c) (map f xs) = takeWhile (\<lambda>c. \<not> is_separator c) xs" for xs
    by (induction xs) (auto simp: sp, auto simp: f_def is_separator_def)
  have ne: "takeWhile (\<lambda>c. \<not> is_separator c) (dropWhile is_separator d) = [] \<longleftrightarrow> dropWhile is_separator d = []"
    by (metis (mono_tags, lifting) hd_dropWhile list.collapse takeWhile.simps(2) list.distinct(1) takeWhile.simps(1))
  show ?thesis
    by (simp add: split_first dw tw ne Let_def)
qed

text \<open>
  Claim C8. For every destination string, \<^verbatim>\<open>extract_country\<close> returns the first token of
  the string after each hyphen has become a space and the string has been split on
  whitespace, and \<^verbatim>\<open>"Unknown"\<close> when there is no token. The first token is the longest
  run of characters other than whitespace and hyphens behind the leading whitespace and
  hyphens. The country of \<^verbatim>\<open>"UK-London"\<close> is \<^verbatim>\<open>"UK"\<close>, of \<^verbatim>\<open>"United States"\<close> it is
  \<^verbatim>\<open>"United"\<close>, of \<^verbatim>\<open>"Unknown"\<close> it is \<^verbatim>\<open>"Unknown"\<close>.
\<close>

theorem extract_country_first_token:
  "extract_country (Some d) =
     Inr (case split (map (\<lambda>c. if c = CHR ''-'' then CHR '' '' else c) d) of
            [] \<Rightarrow> ''Unknown'' | t # ts \<Rightarrow> t) \<and>
   extract_country (Some d) =
     Inr (let t = takeWhile (\<lambda>c. \<not> is_separator c) (dropWhile is_separator d)
          in if t = [] then ''Unknown'' else t) \<and>
   extract_country (Some ''UK-London'') = Inr ''UK'' \<and>
   extract_country (Some ''United States'') = Inr ''United'' \<and>
   extract_country (Some ''Unknown'') = Inr ''Unknown''"
proof -
  have 1: "extract_country (Some ''UK-London'') = Inr ''UK''" by code_simp
  have 2: "extract_country (Some ''United States'') = Inr ''United''" by code_simp
  have 3: "extract_country (Some ''Unknown'') = Inr ''Unknown''" by code_simp
  show ?thesis
    using extract_country_Some [of d] first_token [of "''Unknown''" d] 1 2 3 by simp
qed

theorem extract_country_witness:
  "extract_country (Some '' -New Zealand-North'') = Inr ''New''"
proof -
  have t: "(let t = takeWhile (\<lambda>c. \<not> is_separator c)
                     (dropWhile is_separator '' -New Zealand-North'')
            in if t = [] then ''Unknown'' else t) = ''New''"
    by code_simp
  have "extract_country (Some '' -New Zealand-North'') =
     Inr (let t = takeWhile (\<lambda>c. \<not> is_separator c)
                    (dropWhile is_separator '' -New Zealand-North'')
          in if t = [] then ''Unknown'' else t)"
    using extract_country_first_token [of "'' -New Zealand-North''"] by blast
  then show ?thesis by (simp only: t)
qed

subsection \<open>The normaliser never raises\<close>

lemma extract_country_total: "\<exists>c. extract_country d = Inr c"
proof (cases d)
  case None
  then show ?thesis by (simp add: extract_country_def isna_def)
next
  case (Some s)
  then show ?thesis using extract_country_Some [of s] by simp
qed

lemma extract_country_Unknown: "extract_country (Some ''Unknown'') = Inr ''Unknown''"
  by code_simp

lemma normalize_supplier_name_None: "normalize_supplier_name None = ''nan''"
  by code_simp

lemma normalize_Inr:
  "\<exists>c. extract_country (Some (normalize_destination (Name r))) = Inr c \<and>
       normalize_record r =
         Inr (vendor_record.extend r
               (normalized_record.fields (normalize_destination (Name r))
                  (normalize_supplier_name (Supplier r)) c))"
proof -
  obtain c where "extract_country (Some (normalize_destination (Name r))) = Inr c"
    using extract_country_total by blast
  then show ?thesis by (simp add: normalize_record_def Let_def)
qed

lemma normalize_rows_total: "\<exists>df. normalize_rows rows = Inr df \<and> length df = length rows"
proof (induction rows)
  case Nil
  show ?case by simp
next
  case (Cons r rows)
  obtain n where "normalize_record r = Inr n" using normalize_Inr [of r] by blast
  with Cons show ?case by auto
qed

text \<open>
  Claim C7. The record normaliser is total: for every raw record, also one whose name or
  supplier is missing, \<^verbatim>\<open>normalize_record\<close> returns a record and raises nothing. The six raw
  columns pass through unchanged, a missing name gives the destination and the country
  \<^verbatim>\<open>"Unknown"\<close>, and a missing supplier stays missing (its normalised name is the text
  \<^verbatim>\<open>"nan"\<close>). Loading any list of rows therefore succeeds with one record for each row.
  In particular \<^verbatim>\<open>normalize_destination(None)\<close> is \<^verbatim>\<open>"Unknown"\<close>.
\<close>

theorem normalize_total:
  "(\<exists>n. normalize_record r = Inr n \<and>
        Name n = Name r \<and> Supplier n = Supplier r \<and> Trunk n = Trunk r \<and>
        Rate_inter n = Rate_inter r \<and> Min_Dur n = Min_Dur r \<and> Inc_Dur n = Inc_Dur r \<and>
        Destination n = normalize_destination (Name r) \<and>
        Supplier_Normalized n = normalize_supplier_name (Supplier r) \<and>
        (Name r = None \<longrightarrow> Destination n = ''Unknown'' \<and> Country n = ''Unknown'') \<and>
        (Supplier r = None \<longrightarrow> Supplier n = None \<and> Supplier_Normalized n = ''nan'')) \<and>
   (\<exists>df. normalize_rows rows = Inr df \<and> length df = length rows \<and>
         load_and_process_data rows = Some df) \<and>
   normalize_destination None = ''Unknown''"
proof -
  obtain c where c: "extract_country (Some (normalize_destination (Name r))) = Inr c"
    and n: "normalize_record r =
         Inr (vendor_record.extend r
               (normalized_record.fields (normalize_destination (Name r))
                  (normalize_supplier_name (Supplier r)) c))"
    using normalize_Inr [of r] by blast
  have d: "normalize_destination None = ''Unknown''"
    by (simp add: normalize_destination_def isna_def)
  have "Name r = None \<longrightarrow> c = ''Unknown''"
    using c d extract_country_Unknown by auto
  then have 1: "\<exists>n. normalize_record r = Inr n \<and>
        Name n = Name r \<and> Supplier n = Supplier r \<and> Trunk n = Trunk r \<and>
        Rate_inter n = Rate_inter r \<and> Min_Dur n = Min_Dur r \<and> Inc_Dur n = Inc_Dur r \<and>
        Destination n = normalize_destination (Name r) \<and>
        Supplier_Normalized n = normalize_supplier_name (Supplier r) \<and>
        (Name r = None \<longrightarrow> Destination n = ''Unknown'' \<and> Country n = ''Unknown'') \<and>
        (Supplier r = None \<longrightarrow> Supplier n = None \<and> Supplier_Normalized n = ''nan'')"
    using n d normalize_supplier_name_None
    by (simp add: vendor_record.defs normalized_record.defs)
  obtain df where "normalize_rows rows = Inr df" "length df = length rows"
    using normalize_rows_total by blast
  then have 2: "\<exists>df. normalize_rows rows = Inr df \<and> length df = length rows \<and>
         load_and_process_data rows = Some df"
    by (simp add: load_and_process_data_def)
  from 1 2 d show ?thesis by blast
qed

theorem normalize_total_witness:
  "\<exists>n. normalize_record \<lparr>Name = None, Supplier = None, Trunk = ''T1'', Rate_inter = 1 / 100,
                    Min_Dur = 6, Inc_Dur = 6\<rparr> = Inr n \<and>
       Destination n = ''Unknown'' \<and> Country n = ''Unknown'' \<and> Supplier n = None \<and>
       Supplier_Normalized n = ''nan'' \<and> Trunk n = ''T1''"
  using normalize_total [of "\<lparr>Name = None, Supplier = None, Trunk = ''T1'',
    Rate_inter = 1 / 100, Min_Dur = 6, Inc_Dur = 6\<rparr>" "[]"]
  by auto

subsection \<open>Applying the supplier normaliser twice\<close>

lemma lower_char_idem: "lower_char (lower_char c) = lower_char c"
  by (auto simp: lower_char_def Let_def)

lemma set_strip: "set (strip s) \<subseteq> set s"
  by (auto simp: strip_def dest!: set_dropWhileD)

lemma set_replace: "set (replace old new s) \<subseteq> set s \<union> set new"
  by (induction old new s rule: replace.induct) (auto dest: in_set_dropD)

lemma set_sub_spaces: "set (sub_spaces s) \<subseteq> {c \<in> set s. \<not> is_space c} \<union> {CHR '' ''}"
  by (induction s rule: sub_spaces.induct) (auto dest: set_dropWhileD)

lemma hd_sub_spaces: "s \<noteq> [] \<Longrightarrow> \<not> is_space (hd s) \<Longrightarrow> sub_spaces s \<noteq> [] \<and> hd (sub_spaces s) = hd s"
  by (cases s) auto

lemma single_spaced_sub_spaces: "single_spaced (sub_spaces s)"
proof (induction s rule: sub_spaces.induct)
  case 1
  show ?case by simp
next
  case (2 c cs)
  show ?case
  proof (cases "is_space c")
    case True
    have "sub_spaces (dropWhile is_space cs) = [] \<or>
          \<not> is_space (hd (sub_spaces (dropWhile is_space cs)))"
    proof (cases "dropWhile is_space cs")
      case Nil
      show ?thesis unfolding Nil by simp
    next
      case (Cons d ds)
      then have "\<not> is_space d" by (simp add: dropWhile_eq_Cons_conv)
      then show ?thesis unfolding Cons by simp
    qed
    with True 2 show ?thesis by simp
  next
    case False
    with 2 show ?thesis by simp
  qed
qed

lemma sub_spaces_fixed: "single_spaced s \<Longrightarrow> sub_spaces s = s"
proof (induction s)
  case Nil
  show ?case by simp
next
  case (Cons c cs)
  then show ?case
    by (cases cs) (auto split: if_splits)
qed

lemma single_spaced_append: "single_spaced (xs @ ys) \<Longrightarrow> single_spaced xs \<and> single_spaced ys"
  by (induction xs) (auto split: if_splits simp: hd_append)

lemma single_spaced_strip: "single_spaced s \<Longrightarrow> single_spaced (strip s)"
proof -
  assume a: "single_spaced s"
  let ?a = "dropWhile is_space s"
  have "s = takeWhile is_space s @ ?a" by simp
  then have 1: "single_spaced ?a" using a single_spaced_append by metis
  have "?a = rev (dropWhile is_space (rev ?a)) @ rev (takeWhile is_space (rev ?a))"
    by (metis rev_append rev_rev_ident takeWhile_dropWhile_id)
  then show ?thesis using 1 single_spaced_append unfolding strip_def by metis
qed

lemma strip_fixed_iff: "strip s = s \<longleftrightarrow> s = [] \<or> (\<not> is_space (hd s) \<and> \<not> is_space (last s))"
proof (cases "s = []")
  case True
  then show ?thesis by (simp add: strip_def)
next
  case False
  show ?thesis
  proof
    assume "strip s = s"
    then show "s = [] \<or> (\<not> is_space (hd s) \<and> \<not> is_space (last s))"
      unfolding strip_def
      by (metis False hd_dropWhile hd_rev length_dropWhile_le length_rev rev_is_Nil_conv
          dropWhile_eq_self_iff impossible_Cons list.collapse dropWhile.simps(2) le_antisym takeWhile_dropWhile_id length_append)
  next
    assume "s = [] \<or> (\<not> is_space (hd s) \<and> \<not> is_space (last s))"
    with False have h: "\<not> is_space (hd s)" and l: "\<not> is_space (last s)" by auto
    have "dropWhile is_space s = s" using h False by (cases s) auto
    moreover have "dropWhile is_space (rev s) = rev s" using l False
      by (cases "rev s") (auto simp: last_rev hd_rev dest: arg_cong [where f = hd])
    ultimately show "strip s = s" by (simp add: strip_def)
  qed
qed

lemma strip_strip: "strip (strip s) = strip s"
proof (cases "strip s = []")
  case True
  have "strip [] = []" by (simp add: strip_def)
  then show ?thesis unfolding True .
next
  case False
  let ?a = "dropWhile is_space s"
  let ?d = "dropWhile is_space (rev ?a)"
  have d: "?d \<noteq> []" using False by (simp add: strip_def)
  then have a: "?a \<noteq> []" by (metis dropWhile.simps(1) rev.simps(1))
  have l: "\<not> is_space (last (strip s))"
    using hd_dropWhile [OF d] d by (simp add: strip_def last_rev)
  have "?a = strip s @ rev (takeWhile is_space (rev ?a))"
    unfolding strip_def by (metis rev_append rev_rev_ident takeWhile_dropWhile_id)
  then have "hd ?a = hd (strip s)" using False by (metis hd_append2)
  then have h: "\<not> is_space (hd (strip s))" using hd_dropWhile [OF a] by simp
  show ?thesis using h l by (simp add: strip_fixed_iff)
qed

lemma contains_Nil: "contains [] s"
  by (cases s) auto

lemma replace_absent: "\<not> contains old s \<Longrightarrow> replace old new s = s"
  by (induction old new s rule: replace.induct) (auto simp: contains_Nil)

lemma contains_set: "contains old s \<Longrightarrow> set old \<subseteq> set s"
proof (induction s)
  case Nil
  then show ?case by simp
next
  case (Cons a s)
  from Cons.prems have "prefix old (a # s) \<or> contains old s" by simp
  then show ?case
  proof
    assume "prefix old (a # s)"
    then show ?thesis by (rule set_mono_prefix)
  next
    assume "contains old s"
    then have "set old \<subseteq> set s" by (rule Cons.IH)
    then show ?thesis by auto
  qed
qed

lemma set_replace_within:
  "set s \<subseteq> A \<Longrightarrow> set new \<subseteq> A \<Longrightarrow> set (replace old new s) \<subseteq> A"
  using set_replace [of old new s] by blast

lemma set_foldl_replace:
  "set s \<subseteq> A \<Longrightarrow> \<forall>(old, new)\<in>set rs. set new \<subseteq> A \<Longrightarrow>
   set (foldl (\<lambda>n (old, new). replace old new n) s rs) \<subseteq> A"
proof (induction rs arbitrary: s)
  case Nil
  then show ?case by simp
next
  case (Cons r rs)
  obtain old new where r: "r = (old, new)" by (cases r)
  have "set (replace old new s) \<subseteq> A"
    using Cons.prems r by (intro set_replace_within) auto
  then show ?case using Cons.IH [of "replace old new s"] Cons.prems r by simp
qed

lemma lower_fixed_replacements:
  "\<forall>(old, new)\<in>set replacements. set new \<subseteq> {c. lower_char c = c}"
  by (simp add: replacements_def lower_char_def)

lemma no_ampersand_replacements:
  "\<forall>(old, new)\<in>set replacements. set new \<subseteq> - {CHR ''&''}"
  by (simp add: replacements_def)

lemma normal_form_normalize: "normal_form (normalize_supplier_name x)"
proof -
  define n1 where "n1 = strip (lower (py_str x))"
  define n2 where "n2 = foldl (\<lambda>n (old, new). replace old new n) n1 replacements"
  define n3 where "n3 = sub_nonword n2"
  define n4 where "n4 = strip (sub_spaces n3)"
  have f: "normalize_supplier_name x = n4"
    by (simp add: normalize_supplier_name_def n1_def n2_def n3_def n4_def Let_def)
  have 1: "\<forall>c\<in>set n1. lower_char c = c"
    using set_strip [of "lower (py_str x)"] by (auto simp: n1_def lower_def lower_char_idem)
  have "set n1 \<subseteq> {c. lower_char c = c}" using 1 by blast
  then have "set n2 \<subseteq> {c. lower_char c = c}"
    unfolding n2_def using lower_fixed_replacements by (rule set_foldl_replace)
  then have 2: "\<forall>c\<in>set n2. lower_char c = c" by blast
  have 3: "\<forall>c\<in>set n3. lower_char c = c \<and> (is_word c \<or> is_space c)"
    using 2 by (auto simp: n3_def sub_nonword_def)
  have "set n4 \<subseteq> set n3 \<union> {CHR '' ''}"
    using set_strip [of "sub_spaces n3"] set_sub_spaces [of n3] by (auto simp: n4_def)
  moreover have "lower_char CHR '' '' = CHR '' '' \<and> is_space CHR '' ''"
    by (simp add: lower_char_def is_space_def)
  ultimately have 4: "\<forall>c\<in>set n4. lower_char c = c \<and> (is_word c \<or> is_space c)"
    using 3 by auto
  have 5: "single_spaced n4"
    by (simp add: n4_def single_spaced_strip single_spaced_sub_spaces)
  have 6: "strip n4 = n4" by (simp add: n4_def strip_strip)
  show ?thesis unfolding f normal_form_def using 4 5 6 by blast
qed

lemma normal_form_fixed:
  assumes nf: "normal_form y"
    and abs: "\<forall>(old, new)\<in>set replacements. \<not> contains old y"
  shows "normalize_supplier_name (Some y) = y"
proof -
  have 1: "strip (lower (py_str (Some y))) = y"
    using nf by (simp add: normal_form_def py_str_def lower_def map_idI)
  have 2: "foldl (\<lambda>n (old, new). replace old new n) y replacements = y"
    using abs by (simp add: replacements_def replace_absent)
  have 3: "sub_nonword y = y" using nf by (simp add: normal_form_def sub_nonword_def)
  have 4: "strip (sub_spaces y) = y" using nf by (simp add: normal_form_def sub_spaces_fixed)
  show ?thesis by (simp add: normalize_supplier_name_def Let_def 1 2 3 4)
qed

lemma ampersand_absent: "normal_form y \<Longrightarrow> \<not> contains ''&'' y"
proof
  assume nf: "normal_form y" and "contains ''&'' y"
  then have "CHR ''&'' \<in> set y" using contains_set by fastforce
  then have "is_word CHR ''&'' \<or> is_space CHR ''&''" using nf by (auto simp: normal_form_def)
  then show False by (simp add: is_word_def is_space_def)
qed

lemma length_replace_le:
  "length new \<le> length old \<Longrightarrow> length (replace old new s) \<le> length s"
proof (induction old new s rule: replace.induct)
  case (1 new s)
  then show ?case by (induction s) auto
next
  case (2 a old new)
  then show ?case by simp
next
  case (3 a old new c cs)
  show ?case
  proof (cases "prefix (a # old) (c # cs)")
    case True
    then have "length (a # old) \<le> length (c # cs)" by (rule prefix_length_le)
    moreover have "length (replace (a # old) new (drop (length (a # old)) (c # cs)))
        \<le> length (c # cs) - length (a # old)"
      using 3(1) [OF True 3(3)] by simp
    ultimately show ?thesis using True 3(3) by simp
  next
    case False
    then show ?thesis using 3(2) [OF False 3(3)] by auto
  qed
qed

lemma length_replace_less:
  "length new < length old \<Longrightarrow> contains old s \<Longrightarrow> length (replace old new s) < length s"
proof (induction old new s rule: replace.induct)
  case (1 new s)
  then show ?case by simp
next
  case (2 a old new)
  then show ?case by simp
next
  case (3 a old new c cs)
  show ?case
  proof (cases "prefix (a # old) (c # cs)")
    case True
    then have "length (a # old) \<le> length (c # cs)" by (rule prefix_length_le)
    moreover have "length (replace (a # old) new (drop (length (a # old)) (c # cs)))
        \<le> length (c # cs) - length (a # old)"
      using length_replace_le [of new "a # old" "drop (length (a # old)) (c # cs)"] 3(3)
      by simp
    ultimately show ?thesis using True 3(3) by simp
  next
    case False
    with 3(4) have "contains (a # old) cs" by auto
    then show ?thesis using 3(2) [OF False 3(3)] False by auto
  qed
qed

lemma length_strip_le: "length (strip s) \<le> length s"
  unfolding strip_def
  by (metis length_dropWhile_le length_rev order_trans)

lemma length_sub_spaces_le: "length (sub_spaces s) \<le> length s"
proof (induction s rule: sub_spaces.induct)
  case 1
  show ?case by simp
next
  case (2 c cs)
  show ?case
  proof (cases "is_space c")
    case True
    have "length (dropWhile is_space cs) \<le> length cs" by (rule length_dropWhile_le)
    with 2(1) [OF True] True show ?thesis by simp
  next
    case False
    with 2(2) show ?thesis by simp
  qed
qed

lemma normal_form_shrinks:
  assumes nf: "normal_form y" and occ: "\<not> free_of_patterns y"
  shows "length (normalize_supplier_name (Some y)) < length y"
proof -
  define F where "F = (\<lambda>n (p :: string \<times> string). replace (fst p) (snd p) n)"
  define r1 where "r1 = replace ''communications'' ''comm'' y"
  define r2 where "r2 = replace ''telecom'' ''tel'' r1"
  define r3 where "r3 = replace ''limited'' ''ltd'' r2"
  define r4 where "r4 = replace ''incorporated'' ''inc'' r3"
  define r5 where "r5 = replace ''corporation'' ''corp'' r4"
  define r6 where "r6 = replace ''&'' ''and'' r5"
  have n1: "strip (lower (py_str (Some y))) = y"
    using nf by (simp add: normal_form_def py_str_def lower_def map_idI)
  have amp: "CHR ''&'' \<notin> set y"
  proof
    assume "CHR ''&'' \<in> set y"
    then have "is_word CHR ''&'' \<or> is_space CHR ''&''" using nf by (auto simp: normal_form_def)
    then show False by (simp add: is_word_def is_space_def)
  qed
  have a0: "set y \<subseteq> - {CHR ''&''}" using amp by blast
  have a1: "set r1 \<subseteq> - {CHR ''&''}" unfolding r1_def using a0 by (rule set_replace_within) simp
  have a2: "set r2 \<subseteq> - {CHR ''&''}" unfolding r2_def using a1 by (rule set_replace_within) simp
  have a3: "set r3 \<subseteq> - {CHR ''&''}" unfolding r3_def using a2 by (rule set_replace_within) simp
  have a4: "set r4 \<subseteq> - {CHR ''&''}" unfolding r4_def using a3 by (rule set_replace_within) simp
  have a5: "set r5 \<subseteq> - {CHR ''&''}" unfolding r5_def using a4 by (rule set_replace_within) simp
  have "\<not> contains ''&'' r5" using a5 contains_set [of "''&''" r5] by auto
  then have r6: "r6 = r5" unfolding r6_def by (rule replace_absent)
  have "foldl (\<lambda>n (old, new). replace old new n) y replacements = r6"
    unfolding replacements_def r6_def r5_def r4_def r3_def r2_def r1_def by simp
  then have fold: "foldl (\<lambda>n (old, new). replace old new n) y replacements = r5"
    using r6 by simp
  have le1: "length r1 \<le> length y" unfolding r1_def by (rule length_replace_le) simp
  have le2: "length r2 \<le> length r1" unfolding r2_def by (rule length_replace_le) simp
  have le3: "length r3 \<le> length r2" unfolding r3_def by (rule length_replace_le) simp
  have le4: "length r4 \<le> length r3" unfolding r4_def by (rule length_replace_le) simp
  have le5: "length r5 \<le> length r4" unfolding r5_def by (rule length_replace_le) simp
  have amp': "\<not> contains ''&'' y" using amp contains_set [of "''&''" y] by auto
  from occ amp' consider
      (a) "contains ''communications'' y"
    | (b) "\<not> contains ''communications'' y" "contains ''telecom'' y"
    | (c) "\<not> contains ''communications'' y" "\<not> contains ''telecom'' y" "contains ''limited'' y"
    | (d) "\<not> contains ''communications'' y" "\<not> contains ''telecom'' y" "\<not> contains ''limited'' y"
          "contains ''incorporated'' y"
    | (e) "\<not> contains ''communications'' y" "\<not> contains ''telecom'' y" "\<not> contains ''limited'' y"
          "\<not> contains ''incorporated'' y" "contains ''corporation'' y"
    by (auto simp: free_of_patterns_def replacements_def)
  then have lt: "length r5 < length y"
  proof cases
    case a
    then have "length r1 < length y" unfolding r1_def by (intro length_replace_less) simp_all
    with le2 le3 le4 le5 show ?thesis by linarith
  next
    case b
    then have r: "r1 = y" by (simp add: r1_def replace_absent)
    have "length r2 < length r1"
      unfolding r2_def using b r by (intro length_replace_less) simp_all
    then have "length r2 < length y" using r by simp
    then show ?thesis using le3 le4 le5 by linarith
  next
    case c
    then have r: "r2 = y" by (simp add: r2_def r1_def replace_absent)
    have "length r3 < length r2"
      unfolding r3_def using c r by (intro length_replace_less) simp_all
    then have "length r3 < length y" using r by simp
    then show ?thesis using le4 le5 by linarith
  next
    case d
    then have r: "r3 = y" by (simp add: r3_def r2_def r1_def replace_absent)
    have "length r4 < length r3"
      unfolding r4_def using d r by (intro length_replace_less) simp_all
    then have "length r4 < length y" using r by simp
    then show ?thesis using le5 by linarith
  next
    case e
    then have r: "r4 = y" by (simp add: r4_def r3_def r2_def r1_def replace_absent)
    have "length r5 < length r4"
      unfolding r5_def using e r by (intro length_replace_less) simp_all
    then show ?thesis using r by simp
  qed
  have "normalize_supplier_name (Some y) = strip (sub_spaces (sub_nonword r5))"
    by (simp add: normalize_supplier_name_def Let_def n1 fold)
  moreover have "length (strip (sub_spaces (sub_nonword r5))) \<le> length r5"
  proof -
    have "length (sub_nonword r5) \<le> length r5" by (simp add: sub_nonword_def)
    then show ?thesis
      using length_strip_le [of "sub_spaces (sub_nonword r5)"]
        length_sub_spaces_le [of "sub_nonword r5"]
      by linarith
  qed
  ultimately show ?thesis using lt by simp
qed

lemma free_of_patterns_Ball:
  "free_of_patterns y \<longleftrightarrow> (\<forall>(old, new)\<in>set replacements. \<not> contains old y)"
  by (simp add: free_of_patterns_def list_all_iff)

text \<open>
  Claim C6 says that \<^verbatim>\<open>normalize_supplier_name\<close> is idempotent on every input. It is not:
  the punctuation is deleted after the replacements, so deleting it can bring a replaced
  substring into being. \<^verbatim>\<open>"tele-com"\<close> becomes \<^verbatim>\<open>"telecom"\<close>, and that becomes \<^verbatim>\<open>"tel"\<close>.
\<close>

theorem normalize_supplier_name_not_idempotent:
  "normalize_supplier_name (Some ''tele-com'') = ''telecom'' \<and>
   normalize_supplier_name (Some (normalize_supplier_name (Some ''tele-com''))) = ''tel'' \<and>
   normalize_supplier_name (Some (normalize_supplier_name (Some ''tele-com''))) \<noteq>
     normalize_supplier_name (Some ''tele-com'')"
  by code_simp

text \<open>
  Claim C6, amended. Normalising a second time changes nothing exactly when the name
  normalised once holds none of the replaced substrings (\<^verbatim>\<open>communications\<close>, \<^verbatim>\<open>telecom\<close>,
  \<^verbatim>\<open>limited\<close>, \<^verbatim>\<open>incorporated\<close>, \<^verbatim>\<open>corporation\<close>; an ampersand never survives the first
  pass).
\<close>

theorem normalize_supplier_name_idempotent_iff:
  "normalize_supplier_name (Some (normalize_supplier_name x)) = normalize_supplier_name x
     \<longleftrightarrow> free_of_patterns (normalize_supplier_name x)"
proof
  assume eq: "normalize_supplier_name (Some (normalize_supplier_name x)) = normalize_supplier_name x"
  show "free_of_patterns (normalize_supplier_name x)"
  proof (rule ccontr)
    assume "\<not> free_of_patterns (normalize_supplier_name x)"
    from normal_form_shrinks [OF normal_form_normalize this] eq show False by simp
  qed
next
  assume "free_of_patterns (normalize_supplier_name x)"
  then show "normalize_supplier_name (Some (normalize_supplier_name x)) = normalize_supplier_name x"
    using normal_form_fixed [OF normal_form_normalize] by (simp add: free_of_patterns_Ball)
qed

theorem normalize_supplier_name_idempotent_witness:
  "normalize_supplier_name (Some ''ABC Communications & Co.'') = ''abc comm and co'' \<and>
   normalize_supplier_name (Some (normalize_supplier_name (Some ''ABC Communications & Co.'')))
     = normalize_supplier_name (Some ''ABC Communications & Co.'')"
proof -
  have v: "normalize_supplier_name (Some ''ABC Communications & Co.'') = ''abc comm and co''"
    by code_simp
  have "free_of_patterns ''abc comm and co''" by code_simp
  then have "free_of_patterns (normalize_supplier_name (Some ''ABC Communications & Co.''))"
    by (simp only: v)
  then show ?thesis
    using normalize_supplier_name_idempotent_iff [of "Some ''ABC Communications & Co.''"] v
    by simp
qed

section \<open>The filter engine: proofs\<close>

lemma set_unique: "set (unique xs) = set xs"
  by (simp add: unique_def)

lemma distinct_unique: "distinct (unique xs)"
  by (simp add: unique_def)

lemma filter_dataframe_eq:
  "filter_dataframe df cs ds ss ts =
     filter (\<lambda>r. passes cs (Country r) \<and> passes ds (Destination r) \<and>
                 passes ss (Supplier r) \<and> passes ts (Trunk r)) df"
  by (simp add: filter_dataframe_def passes_def Let_def conj_commute)

text \<open>
  Claim C2. For every table and every selection, \<^verbatim>\<open>filter_dataframe\<close> returns the records
  that pass all four dimensions, in the order of the table, where a record passes a
  dimension when the selection of that dimension is empty or holds the record's value. With
  four empty selections the result is the table itself.
\<close>

theorem filter_dataframe_subsequence:
  "filter_dataframe df cs ds ss ts =
     filter (\<lambda>r. passes cs (Country r) \<and> passes ds (Destination r) \<and>
                 passes ss (Supplier r) \<and> passes ts (Trunk r)) df \<and>
   subseq (filter_dataframe df cs ds ss ts) df \<and>
   filter_dataframe df [] [] [] [] = df"
proof -
  have "subseq (filter_dataframe df cs ds ss ts) df"
    unfolding filter_dataframe_eq by (rule subseq_filter_left)
  moreover have "filter_dataframe df [] [] [] [] = df"
    by (simp add: filter_dataframe_def)
  ultimately show ?thesis using filter_dataframe_eq by blast
qed

lemma temp_df_suppliers_eq:
  "temp_df_suppliers df sc sd =
     filter (\<lambda>r. passes sc (Country r) \<and> passes sd (Destination r)) df"
  by (simp add: temp_df_suppliers_def passes_def Let_def conj_commute)

lemma temp_df_trunks_eq:
  "temp_df_trunks df sc sd ss =
     filter (\<lambda>r. passes sc (Country r) \<and> passes sd (Destination r) \<and> passes ss (Supplier r)) df"
  by (auto simp: temp_df_trunks_def temp_df_suppliers_eq passes_def Let_def intro!: filter_cong)

lemma set_available_countries: "set (available_countries df) = Country ` set df"
  by (simp add: available_countries_def set_unique)

lemma set_available_destinations:
  "set (available_destinations df sc) = Destination ` {r \<in> set df. passes sc (Country r)}"
  by (auto simp: available_destinations_def set_unique passes_def)

lemma set_available_suppliers:
  "set (available_suppliers df sc sd) =
     Supplier ` {r \<in> set df. passes sc (Country r) \<and> passes sd (Destination r)}"
  by (auto simp: available_suppliers_def temp_df_suppliers_eq set_unique)

lemma set_available_trunks:
  "set (available_trunks df sc sd ss) =
     Trunk ` {r \<in> set df. passes sc (Country r) \<and> passes sd (Destination r) \<and>
                          passes ss (Supplier r)}"
  by (auto simp: available_trunks_def temp_df_trunks_eq set_unique)

text \<open>
  Claim C1. For every table and every selection the candidate sets follow the cascade
  country, destination, supplier, trunk: the country candidates are the distinct countries
  of the table, the destination candidates the distinct destinations of the records that
  pass the country selection, the supplier candidates the distinct suppliers of the
  records that pass the country and the destination selection, the trunk candidates the
  distinct trunks of the records that pass the country, destination and supplier selection.
  The candidates of a dimension do not change when the selections of that dimension and of
  the later ones are replaced by any others.
\<close>

theorem candidates_cascade:
  "set (cand_countries (compute_candidates df sel)) = Country ` set df \<and>
   set (cand_destinations (compute_candidates df sel)) =
     Destination ` {r \<in> set df. passes (selected_countries sel) (Country r)} \<and>
   set (cand_suppliers (compute_candidates df sel)) =
     Supplier ` {r \<in> set df. passes (selected_countries sel) (Country r) \<and>
                             passes (selected_destinations sel) (Destination r)} \<and>
   set (cand_trunks (compute_candidates df sel)) =
     Trunk ` {r \<in> set df. passes (selected_countries sel) (Country r) \<and>
                          passes (selected_destinations sel) (Destination r) \<and>
                          passes (selected_suppliers sel) (Supplier r)} \<and>
   distinct (cand_countries (compute_candidates df sel)) \<and>
   distinct (cand_destinations (compute_candidates df sel)) \<and>
   distinct (cand_suppliers (compute_candidates df sel)) \<and>
   distinct (cand_trunks (compute_candidates df sel)) \<and>
   cand_countries
     (compute_candidates df \<lparr>selected_countries = c, selected_destinations = d,
        selected_suppliers = s, selected_trunks = t\<rparr>) =
     cand_countries (compute_candidates df sel) \<and>
   cand_destinations
     (compute_candidates df \<lparr>selected_countries = selected_countries sel,
        selected_destinations = d, selected_suppliers = s, selected_trunks = t\<rparr>) =
     cand_destinations (compute_candidates df sel) \<and>
   cand_suppliers
     (compute_candidates df \<lparr>selected_countries = selected_countries sel,
        selected_destinations = selected_destinations sel, selected_suppliers = s,
        selected_trunks = t\<rparr>) =
     cand_suppliers (compute_candidates df sel) \<and>
   cand_trunks
     (compute_candidates df \<lparr>selected_countries = selected_countries sel,
        selected_destinations = selected_destinations sel,
        selected_suppliers = selected_suppliers sel, selected_trunks = t\<rparr>) =
     cand_trunks (compute_candidates df sel)"
proof -
  have c: "cand_countries (compute_candidates df x) = available_countries df"
    and d: "cand_destinations (compute_candidates df x) =
      available_destinations df (selected_countries x)"
    and s: "cand_suppliers (compute_candidates df x) =
      available_suppliers df (selected_countries x) (selected_destinations x)"
    and t: "cand_trunks (compute_candidates df x) =
      available_trunks df (selected_countries x) (selected_destinations x)
        (selected_suppliers x)" for x
    by (simp_all add: compute_candidates_def)
  have dc: "distinct (available_countries df)"
    by (simp add: available_countries_def distinct_unique)
  have dd: "distinct (available_destinations df a)" for a
    by (simp add: available_destinations_def distinct_unique)
  have ds: "distinct (available_suppliers df a b)" for a b
    by (simp add: available_suppliers_def distinct_unique)
  have dt: "distinct (available_trunks df a b e)" for a b e
    by (simp add: available_trunks_def distinct_unique)
  show ?thesis
    unfolding c d s t
    by (simp add: set_available_countries set_available_destinations
        set_available_suppliers set_available_trunks dc dd ds dt)
qed

section \<open>The aggregation views: proofs\<close>

subsection \<open>Full rate listing\<close>



















subsection \<open>Groups\<close>


lemma set_map_filter_keys: "set (List.map_filter key df) = {k. \<exists>r\<in>set df. key r = Some k}"
  by (induction df) (auto split: option.splits)



lemma groupby_group:
  assumes "(k, g) \<in> set (groupby key df)"
  shows "g = filter (\<lambda>r. key r = Some k) df \<and> g \<noteq> []"
proof -
  from assms have g: "g = filter (\<lambda>r. key r = Some k) df"
    and "k \<in> set (sort (unique (List.map_filter key df)))"
    by (auto simp: groupby_def)
  then have "\<exists>r\<in>set df. key r = Some k"
    by (auto simp: set_unique set_map_filter_keys)
  then have "filter (\<lambda>r. key r = Some k) df \<noteq> []"
    by (simp add: filter_empty_conv)
  with g show ?thesis by simp
qed



subsection \<open>Supplier summary\<close>



lemma summary_row:
  assumes "row \<in> set (supplier_summary_raw df)"
  shows "supplier_group df (ss_Supplier row) \<noteq> [] \<and>
     ss_Routes row = length (supplier_group df (ss_Supplier row)) \<and>
     ss_Avg_Rate row = mean (map Rate_inter (supplier_group df (ss_Supplier row))) \<and>
     ss_Min_Rate row = Min (set (map Rate_inter (supplier_group df (ss_Supplier row)))) \<and>
     ss_Max_Rate row = Max (set (map Rate_inter (supplier_group df (ss_Supplier row))))"
proof -
  from assms obtain k g where kg: "(k, g) \<in> set (groupby Supplier df)"
    and row: "row = summary_agg (k, g)"
    by (auto simp: supplier_summary_raw_def)
  have g: "g = supplier_group df k" and ne: "g \<noteq> []"
    using groupby_group [OF kg] unfolding supplier_group_def by blast+
  show ?thesis using ne unfolding row g by (simp add: summary_agg_def)
qed



subsection \<open>Overview\<close>










end
